theory Spec2Isabelle
  imports Main "HOL-Library.Word"
begin

unbundle bit_operations_syntax

section \<open>Bytes, errors and the \<^verbatim>\<open>File\<close> struct\<close>

type_synonym byte = "8 word"

text \<open>
  The failures the program can meet. Go reports each as a non-nil \<^verbatim>\<open>error\<close>; the
  program never inspects one beyond \<^verbatim>\<open>err != nil\<close>, so the constructors only record
  where the failure comes from.
\<close>

datatype error =
    ErrMissingFile        \<comment> \<open>\<^verbatim>\<open>c.FormFile\<close>: no field \<^verbatim>\<open>file\<close>, or a malformed form\<close>
  | ErrIO                 \<comment> \<open>open, read or seek failure of the uploaded stream\<close>
  | ErrStorage            \<comment> \<open>any failure of the storage engine but a constraint\<close>
  | ErrConstraintUnique   \<comment> \<open>\<^verbatim>\<open>UNIQUE constraint failed: files.hash\<close>\<close>
  | ErrScan               \<comment> \<open>\<^verbatim>\<open>rows.Scan\<close> cannot convert a column\<close>

text \<open>
  \<^verbatim>\<open>type File struct { ID int; Hash string; Name string; File []byte }\<close>.
  A nil \<^verbatim>\<open>[]byte\<close> and an empty one are both \<open>[]\<close> here: the field is never
  marshalled (\<^verbatim>\<open>json:"-"\<close>) and \<^verbatim>\<open>io.ReadAll\<close> never returns nil.
\<close>

record File =
  ID :: int
  Hash :: string
  Name :: string
  File :: "byte list"

section \<open>\<^verbatim>\<open>crypto/sha256\<close> and \<^verbatim>\<open>encoding/hex\<close>\<close>

text \<open>
  SHA-256 as \<^verbatim>\<open>sha256.New\<close>, \<^verbatim>\<open>Write\<close> and \<^verbatim>\<open>Sum(nil)\<close> compute it
  (FIPS 180-4), on the whole byte sequence written to the hasher.
\<close>

definition K256 :: "32 word list" where
  "K256 = [
    0x428A2F98, 0x71374491, 0xB5C0FBCF, 0xE9B5DBA5, 0x3956C25B, 0x59F111F1, 0x923F82A4, 0xAB1C5ED5,
    0xD807AA98, 0x12835B01, 0x243185BE, 0x550C7DC3, 0x72BE5D74, 0x80DEB1FE, 0x9BDC06A7, 0xC19BF174,
    0xE49B69C1, 0xEFBE4786, 0x0FC19DC6, 0x240CA1CC, 0x2DE92C6F, 0x4A7484AA, 0x5CB0A9DC, 0x76F988DA,
    0x983E5152, 0xA831C66D, 0xB00327C8, 0xBF597FC7, 0xC6E00BF3, 0xD5A79147, 0x06CA6351, 0x14292967,
    0x27B70A85, 0x2E1B2138, 0x4D2C6DFC, 0x53380D13, 0x650A7354, 0x766A0ABB, 0x81C2C92E, 0x92722C85,
    0xA2BFE8A1, 0xA81A664B, 0xC24B8B70, 0xC76C51A3, 0xD192E819, 0xD6990624, 0xF40E3585, 0x106AA070,
    0x19A4C116, 0x1E376C08, 0x2748774C, 0x34B0BCB5, 0x391C0CB3, 0x4ED8AA4A, 0x5B9CCA4F, 0x682E6FF3,
    0x748F82EE, 0x78A5636F, 0x84C87814, 0x8CC70208, 0x90BEFFFA, 0xA4506CEB, 0xBEF9A3F7, 0xC67178F2]"

type_synonym digest = "32 word \<times> 32 word \<times> 32 word \<times> 32 word \<times> 32 word \<times> 32 word \<times> 32 word \<times> 32 word"

definition init256 :: digest where
  "init256 = (0x6A09E667, 0xBB67AE85, 0x3C6EF372, 0xA54FF53A,
              0x510E527F, 0x9B05688C, 0x1F83D9AB, 0x5BE0CD19)"

definition rotr :: "nat \<Rightarrow> 32 word \<Rightarrow> 32 word" where
  "rotr n x = drop_bit n x OR push_bit (32 - n) x"

text \<open>Four bytes, big-endian, as one word; absent bytes read as 0.\<close>

fun be32 :: "byte list \<Rightarrow> 32 word" where
  "be32 (a # b # c # d # _) =
     push_bit 24 (ucast a) OR push_bit 16 (ucast b) OR push_bit 8 (ucast c) OR ucast d"
| "be32 _ = 0"

fun block_words :: "nat \<Rightarrow> byte list \<Rightarrow> 32 word list" where
  "block_words 0 p = []"
| "block_words (Suc n) p = be32 p # block_words n (drop 4 p)"

text \<open>
  The message schedule, \<open>w[i] = t1 + w[i-7] + t2 + w[i-16]\<close> for \<open>i = 16..63\<close>;
  the list holds \<open>w[0..i-1]\<close> and grows by one word per step.
\<close>

fun schedule :: "nat \<Rightarrow> 32 word list \<Rightarrow> 32 word list" where
  "schedule 0 w = w"
| "schedule (Suc n) w =
     (let i = length w;
          v1 = w ! (i - 2);
          t1 = rotr 17 v1 XOR rotr 19 v1 XOR drop_bit 10 v1;
          v2 = w ! (i - 15);
          t2 = rotr 7 v2 XOR rotr 18 v2 XOR drop_bit 3 v2
      in schedule n (w @ [t1 + w ! (i - 7) + t2 + w ! (i - 16)]))"

fun round256 :: "digest \<Rightarrow> 32 word \<times> 32 word \<Rightarrow> digest" where
  "round256 (a, b, c, d, e, f, g, h) (k, w) =
     (let t1 = h + (rotr 6 e XOR rotr 11 e XOR rotr 25 e) + ((e AND f) XOR (NOT e AND g)) + k + w;
          t2 = (rotr 2 a XOR rotr 13 a XOR rotr 22 a) + ((a AND b) XOR (a AND c) XOR (b AND c))
      in (t1 + t2, a, b, c, d + t1, e, f, g))"

fun add_digest :: "digest \<Rightarrow> digest \<Rightarrow> digest" where
  "add_digest (h0, h1, h2, h3, h4, h5, h6, h7) (a, b, c, d, e, f, g, h) =
     (h0 + a, h1 + b, h2 + c, h3 + d, h4 + e, h5 + f, h6 + g, h7 + h)"

definition block256 :: "digest \<Rightarrow> byte list \<Rightarrow> digest" where
  "block256 dig p =
     add_digest dig (foldl round256 dig (zip K256 (schedule 48 (block_words 16 p))))"

text \<open>The blocks of 64 bytes of a padded message, one after the other.\<close>

fun blocks256 :: "nat \<Rightarrow> digest \<Rightarrow> byte list \<Rightarrow> digest" where
  "blocks256 0 dig p = dig"
| "blocks256 (Suc n) dig p = blocks256 n (block256 dig (take 64 p)) (drop 64 p)"

text \<open>
  Padding: the byte \<open>0x80\<close>, zeros up to 56 modulo 64, then the length in bits as a
  64-bit big-endian number (a \<^verbatim>\<open>uint64\<close>, so modulo \<open>2 ^ 64\<close>).
\<close>

definition be64 :: "64 word \<Rightarrow> byte list" where
  "be64 n = map (\<lambda>i. ucast (drop_bit (8 * (7 - i)) n)) [0 ..< 8]"

definition pad256 :: "byte list \<Rightarrow> byte list" where
  "pad256 m =
     m @ [0x80] @ replicate ((119 - length m mod 64) mod 64) 0
       @ be64 (push_bit 3 (of_nat (length m)))"

definition be32_bytes :: "32 word \<Rightarrow> byte list" where
  "be32_bytes x = [ucast (drop_bit 24 x), ucast (drop_bit 16 x), ucast (drop_bit 8 x), ucast x]"

fun digest_bytes :: "digest \<Rightarrow> byte list" where
  "digest_bytes (h0, h1, h2, h3, h4, h5, h6, h7) =
     concat (map be32_bytes [h0, h1, h2, h3, h4, h5, h6, h7])"

definition sha256 :: "byte list \<Rightarrow> byte list" where
  "sha256 m = (let p = pad256 m in digest_bytes (blocks256 (length p div 64) init256 p))"

text \<open>\<^verbatim>\<open>hex.EncodeToString\<close>: two digits of \<^verbatim>\<open>0123456789abcdef\<close> per byte, high nibble first.\<close>

definition hextable :: string where
  "hextable = ''0123456789abcdef''"

definition hex_byte :: "byte \<Rightarrow> string" where
  "hex_byte v = [hextable ! unat (drop_bit 4 v), hextable ! unat (v AND 0x0f)]"

definition EncodeToString :: "byte list \<Rightarrow> string" where
  "EncodeToString src = concat (map hex_byte src)"

section \<open>The uploaded stream: \<^verbatim>\<open>multipart.File\<close>\<close>

text \<open>
  The opened upload is a reader with a position. \<open>faults\<close> is the script of the
  operating system's answers: each operation of the program on the stream (a pass of
  reads up to the end, a seek) takes the head, and \<open>True\<close> makes that operation fail;
  when the script is used up every operation succeeds.
\<close>

record stream =
  content :: "byte list"
  offset :: nat
  faults :: "bool list"

definition fails_next :: "stream \<Rightarrow> bool" where
  "fails_next s = (case faults s of [] \<Rightarrow> False | b # _ \<Rightarrow> b)"

definition unread :: "stream \<Rightarrow> byte list" where
  "unread s = drop (offset s) (content s)"

text \<open>
  Reading until \<^verbatim>\<open>io.EOF\<close>, as both \<^verbatim>\<open>io.Copy\<close> and \<^verbatim>\<open>io.ReadAll\<close> do: the bytes
  from the position on, and the position moves to the end. A read failure gives the error.
\<close>

definition read_to_EOF :: "stream \<Rightarrow> (error + byte list) \<times> stream" where
  "read_to_EOF s =
     (if fails_next s then (Inl ErrIO, s\<lparr>faults := tl (faults s)\<rparr>)
      else (Inr (unread s), s\<lparr>offset := length (content s), faults := tl (faults s)\<rparr>))"

text \<open>\<^verbatim>\<open>Seek(0, io.SeekStart)\<close>: a failed seek leaves the position where it was.\<close>

definition Seek_start :: "stream \<Rightarrow> (error + nat) \<times> stream" where
  "Seek_start s =
     (if fails_next s then (Inl ErrIO, s\<lparr>faults := tl (faults s)\<rparr>)
      else (Inr 0, s\<lparr>offset := 0, faults := tl (faults s)\<rparr>))"

text \<open>\<^verbatim>\<open>log.Fatal\<close> prints and calls \<^verbatim>\<open>os.Exit(1)\<close>: the process ends there.\<close>

datatype exit = Exit int

text \<open>
  \<^verbatim>\<open>calculateHash\<close>: copy the reader into a SHA-256 hasher; a read error is fatal;
  otherwise the digest in hexadecimal.
\<close>

definition calculateHash :: "stream \<Rightarrow> (exit + string) \<times> stream" where
  "calculateHash file =
     (case read_to_EOF file of
        (Inl err, file') \<Rightarrow> (Inl (Exit 1), file')
      | (Inr written, file') \<Rightarrow> (Inr (EncodeToString (sha256 written)), file'))"

section \<open>The store: table \<^verbatim>\<open>files\<close>\<close>

text \<open>
  \<^verbatim>\<open>id INTEGER PRIMARY KEY AUTOINCREMENT, hash TEXT NOT NULL UNIQUE, name TEXT NOT NULL,
  file BLOB NOT NULL\<close>. The rows are kept in insertion order; \<open>seq\<close> is the largest id
  ever given out (\<^verbatim>\<open>sqlite_sequence\<close>).
\<close>

record row =
  row_id :: int
  row_hash :: string
  row_name :: string
  row_file :: "byte list"

record db =
  files :: "row list"
  seq :: int

definition hashes :: "db \<Rightarrow> string list" where
  "hashes t = map row_hash (files t)"

text \<open>
  \<^verbatim>\<open>initDB\<close>: \<^verbatim>\<open>CREATE TABLE IF NOT EXISTS\<close>. \<open>None\<close> is a database file without the
  table; a failure of the statement is fatal.
\<close>

definition initDB :: "db option \<Rightarrow> bool \<Rightarrow> exit + db" where
  "initDB d fails =
     (if fails then Inl (Exit 1)
      else case d of None \<Rightarrow> Inr \<lparr>files = [], seq = 0\<rparr> | Some t \<Rightarrow> Inr t)"

text \<open>
  \<^verbatim>\<open>fileExists\<close>: \<^verbatim>\<open>SELECT EXISTS(SELECT 1 FROM files WHERE hash = ?)\<close>.
  \<open>fails\<close> says whether the storage engine fails this statement.
\<close>

definition fileExists :: "db \<Rightarrow> bool \<Rightarrow> string \<Rightarrow> error + bool" where
  "fileExists t fails hash =
     (if fails then Inl ErrStorage else Inr (hash \<in> set (hashes t)))"

text \<open>
  \<^verbatim>\<open>addFile\<close>: one \<^verbatim>\<open>INSERT\<close>. The statement either adds the whole row or, on any
  error, changes nothing. The new id is one more than the largest ever used; at the
  largest 64-bit id the engine refuses (\<^verbatim>\<open>SQLITE_FULL\<close>).
\<close>

definition max_rowid :: int where
  "max_rowid = 9223372036854775807"

definition addFile :: "db \<Rightarrow> bool \<Rightarrow> File \<Rightarrow> error option \<times> db" where
  "addFile t fails file =
     (if fails then (Some ErrStorage, t)
      else if Hash file \<in> set (hashes t) then (Some ErrConstraintUnique, t)
      else if seq t = max_rowid then (Some ErrStorage, t)
      else (None,
            t\<lparr>files := files t @
                 [\<lparr>row_id = seq t + 1, row_hash = Hash file, row_name = Name file,
                   row_file = File file\<rparr>],
              seq := seq t + 1\<rparr>))"

text \<open>
  \<^verbatim>\<open>getAllFiles\<close>. A Go slice is \<open>None\<close> when nil: \<^verbatim>\<open>var files []File\<close> is nil until
  the first \<^verbatim>\<open>append\<close>. The cursor can fail at each row: \<^verbatim>\<open>rows.Next()\<close> then returns
  false and keeps the error for \<^verbatim>\<open>rows.Err()\<close>, or \<^verbatim>\<open>rows.Scan\<close> returns an error.
\<close>

type_synonym 'a slice = "'a list option"

definition append_slice :: "'a slice \<Rightarrow> 'a \<Rightarrow> 'a slice" where
  "append_slice s x = (case s of None \<Rightarrow> Some [x] | Some xs \<Rightarrow> Some (xs @ [x]))"

definition elems :: "'a slice \<Rightarrow> 'a list" where
  "elems s = (case s of None \<Rightarrow> [] | Some xs \<Rightarrow> xs)"

datatype row_fault = NoFault | NextFails | ScanFails

record list_faults =
  query_fails :: bool
  row_faults :: "row_fault list"

text \<open>What \<^verbatim>\<open>rows.Scan(&file.ID, &file.Hash, &file.Name)\<close> leaves in a zero \<^verbatim>\<open>File\<close>.\<close>

definition scanned :: "row \<Rightarrow> File" where
  "scanned r = \<lparr>ID = row_id r, Hash = row_hash r, Name = row_name r, File = []\<rparr>"

text \<open>
  The loop \<^verbatim>\<open>for rows.Next() { ... }\<close> over the rows still to come, with the faults
  of the rows still to come. When \<^verbatim>\<open>rows.Next()\<close> is false the loop ends and
  \<^verbatim>\<open>files, nil\<close> is returned, whatever \<^verbatim>\<open>rows.Err()\<close> holds; \<open>acc\<close> is the
  variable \<^verbatim>\<open>files\<close> of the source.
\<close>

fun rows_loop :: "row list \<Rightarrow> row_fault list \<Rightarrow> File slice \<Rightarrow> error + File slice" where
  "rows_loop [] flts acc = Inr acc"
| "rows_loop (r # rs) flts acc =
     (case (case flts of [] \<Rightarrow> NoFault | f # _ \<Rightarrow> f) of
        NextFails \<Rightarrow> Inr acc
      | ScanFails \<Rightarrow> Inl ErrScan
      | NoFault \<Rightarrow> rows_loop rs (tl flts) (append_slice acc (scanned r)))"

definition getAllFiles :: "db \<Rightarrow> list_faults \<Rightarrow> error + File slice" where
  "getAllFiles t lf =
     (if query_fails lf then Inl ErrStorage
      else rows_loop (files t) (row_faults lf) None)"

section \<open>Requests, responses and the handlers\<close>

text \<open>
  A JSON value as \<^verbatim>\<open>c.JSON\<close> writes it. An object is the list of its members in the
  order written: a struct in field order, a \<^verbatim>\<open>gin.H\<close> map with its keys sorted.
\<close>

datatype json =
    JNull
  | JNumber int
  | JString string
  | JArray "json list"
  | JObject "(string \<times> json) list"

text \<open>A handler ends with one \<^verbatim>\<open>c.JSON(status, body)\<close>, or the process ends first.\<close>

datatype outcome = Respond nat json | Fatal exit

definition StatusOK :: nat where "StatusOK = 200"
definition StatusBadRequest :: nat where "StatusBadRequest = 400"
definition StatusConflict :: nat where "StatusConflict = 409"
definition StatusInternalServerError :: nat where "StatusInternalServerError = 500"

definition error_body :: "string \<Rightarrow> json" where
  "error_body msg = JObject [(''error'', JString msg)]"

text \<open>
  The request as the upload handler sees it: what \<^verbatim>\<open>c.FormFile("file")\<close> returns, and
  for a file header its name and what \<^verbatim>\<open>file.Open()\<close> returns.
\<close>

record FileHeader =
  Filename :: string
  Open :: "error + stream"

record request =
  FormFile :: "error + FileHeader"

text \<open>Whether the storage engine fails the statement of \<^verbatim>\<open>fileExists\<close>, of \<^verbatim>\<open>addFile\<close>.\<close>

record upload_faults =
  exists_fails :: bool
  insert_fails :: bool

text \<open>
  \<^verbatim>\<open>POST /upload\<close>, first part (the form file up to the struct \<^verbatim>\<open>fileInfo\<close>): it only
  reads the store. The result of \<^verbatim>\<open>Seek\<close> is dropped, as in the source.
\<close>

definition upload_read :: "db \<Rightarrow> upload_faults \<Rightarrow> request \<Rightarrow> outcome + File" where
  "upload_read t flt c =
     (case FormFile c of
        Inl err \<Rightarrow> Inl (Respond StatusBadRequest (error_body ''No file is uploaded''))
      | Inr file \<Rightarrow>
     (case Open file of
        Inl err \<Rightarrow> Inl (Respond StatusInternalServerError (error_body ''Failed to read file''))
      | Inr fileContent \<Rightarrow>
     (case calculateHash fileContent of
        (Inl ex, fileContent1) \<Rightarrow> Inl (Fatal ex)
      | (Inr hash, fileContent1) \<Rightarrow>
     (case Seek_start fileContent1 of (_, fileContent2) \<Rightarrow>
     (case fileExists t (exists_fails flt) hash of
        Inl err \<Rightarrow>
          Inl (Respond StatusInternalServerError (error_body ''Failed to check file existence''))
      | Inr exists \<Rightarrow>
          if exists then Inl (Respond StatusConflict (error_body ''File already exists''))
          else
     (case read_to_EOF fileContent2 of
        (Inl err, _) \<Rightarrow>
          Inl (Respond StatusInternalServerError (error_body ''Failed to read file content''))
      | (Inr fileData, _) \<Rightarrow>
          Inr \<lparr>ID = 0, Hash = hash, Name = Filename file, File = fileData\<rparr>))))))"

text \<open>\<^verbatim>\<open>POST /upload\<close>, second part: the insert and the response.\<close>

definition upload_save :: "db \<Rightarrow> upload_faults \<Rightarrow> File \<Rightarrow> outcome \<times> db" where
  "upload_save t flt fileInfo =
     (case addFile t (insert_fails flt) fileInfo of
        (Some err, t') \<Rightarrow>
          (Respond StatusInternalServerError (error_body ''Failed to save file to database''), t')
      | (None, t') \<Rightarrow>
          (Respond StatusOK
             (JObject [(''filename'', JString (Name fileInfo)),
                       (''hash'', JString (Hash fileInfo)),
                       (''message'', JString ''File uploaded successfully'')]), t'))"

text \<open>The handler of \<^verbatim>\<open>POST /upload\<close> when no other request writes the store meanwhile.\<close>

definition upload :: "db \<Rightarrow> upload_faults \<Rightarrow> request \<Rightarrow> outcome \<times> db" where
  "upload t flt c =
     (case upload_read t flt c of
        Inl out \<Rightarrow> (out, t)
      | Inr fileInfo \<Rightarrow> upload_save t flt fileInfo)"

text \<open>
  \<^verbatim>\<open>json.Marshal\<close> of a \<^verbatim>\<open>File\<close> (the field \<^verbatim>\<open>File\<close> has the tag \<^verbatim>\<open>json:"-"\<close>) and
  of a \<^verbatim>\<open>[]File\<close>: a nil slice is \<^verbatim>\<open>null\<close>.
\<close>

definition marshal_File :: "File \<Rightarrow> json" where
  "marshal_File f =
     JObject [(''id'', JNumber (ID f)), (''hash'', JString (Hash f)), (''name'', JString (Name f))]"

definition marshal_Files :: "File slice \<Rightarrow> json" where
  "marshal_Files s = (case s of None \<Rightarrow> JNull | Some fs \<Rightarrow> JArray (map marshal_File fs))"

text \<open>The handler of \<^verbatim>\<open>GET /files\<close>.\<close>

definition list_files :: "db \<Rightarrow> list_faults \<Rightarrow> outcome" where
  "list_files t lf =
     (case getAllFiles t lf of
        Inl err \<Rightarrow> Respond StatusInternalServerError (error_body ''Failed to get files'')
      | Inr fs \<Rightarrow> Respond StatusOK (marshal_Files fs))"

text \<open>
  A body that is a JSON array of objects whose keys are exactly \<^verbatim>\<open>id\<close>, \<^verbatim>\<open>hash\<close>
  and \<^verbatim>\<open>name\<close>.
\<close>

fun is_file_object :: "json \<Rightarrow> bool" where
  "is_file_object (JObject kvs) = (map fst kvs = [''id'', ''hash'', ''name''])"
| "is_file_object _ = False"

fun is_file_array :: "json \<Rightarrow> bool" where
  "is_file_array (JArray vs) = list_all is_file_object vs"
| "is_file_array _ = False"

text \<open>
  The store after a sequence of calls of \<^verbatim>\<open>addFile\<close>, each with its own file and its
  own answer of the storage engine. Nothing else in the program writes the table.
\<close>

fun addFiles :: "db \<Rightarrow> (bool \<times> File) list \<Rightarrow> db" where
  "addFiles t [] = t"
| "addFiles t ((fails, file) # rest) = addFiles (snd (addFile t fails file)) rest"

definition fresh :: db where
  "fresh = \<lparr>files = [], seq = 0\<rparr>"

text \<open>
  The request of a client that sends the bytes \<open>B\<close> under the name \<open>n\<close>, on a stream
  with the fault script \<open>fs\<close>.
\<close>

definition form_upload :: "string \<Rightarrow> byte list \<Rightarrow> bool list \<Rightarrow> request" where
  "form_upload n B fs =
     \<lparr>FormFile = Inr \<lparr>Filename = n, Open = Inr \<lparr>content = B, offset = 0, faults = fs\<rparr>\<rparr>\<rparr>"

definition healthy :: upload_faults where
  "healthy = \<lparr>exists_fails = False, insert_fails = False\<rparr>"

definition bytes_of :: "string \<Rightarrow> byte list" where
  "bytes_of s = map (\<lambda>c. of_nat (of_char c)) s"

text \<open>The status code of the response, if the handler came to respond.\<close>

fun status :: "outcome \<Rightarrow> nat option" where
  "status (Respond st body) = Some st"
| "status (Fatal ex) = None"

text \<open>A listing during which the storage engine never fails.\<close>

definition no_list_faults :: list_faults where
  "no_list_faults = \<lparr>query_fails = False, row_faults = []\<rparr>"

section \<open>The content hasher\<close>

lemma length_digest_bytes: "length (digest_bytes d) = 32"
  by (cases d rule: digest_bytes.cases) (simp add: be32_bytes_def)

lemma length_sha256: "length (sha256 m) = 32"
  by (simp add: sha256_def Let_def length_digest_bytes)

lemma length_hextable: "length hextable = 16"
  by (simp add: hextable_def)

lemma high_nibble_less: "unat (drop_bit 4 (v :: byte)) < 16"
proof -
  have "unat (drop_bit 4 v) = unat v div 2 ^ 4"
    by (simp add: drop_bit_eq_div unat_div)
  moreover have "unat v < 2 ^ 8"
    using unsigned_less [of v] by simp
  ultimately show ?thesis by simp
qed

lemma low_nibble_less: "unat ((v :: byte) AND 0x0f) < 16"
  using word_and_le1 [of v 15] by (simp add: word_le_nat_alt)

lemma hex_byte_digits: "set (hex_byte v) \<subseteq> set hextable"
  using high_nibble_less [of v] low_nibble_less [of v]
  by (simp add: hex_byte_def length_hextable)

lemma length_hex_byte: "length (hex_byte v) = 2"
  by (simp add: hex_byte_def)

lemma length_EncodeToString: "length (EncodeToString src) = 2 * length src"
  by (induction src) (simp_all add: EncodeToString_def length_hex_byte)

lemma EncodeToString_digits: "set (EncodeToString src) \<subseteq> set hextable"
  using hex_byte_digits by (auto simp add: EncodeToString_def)

lemma calculateHash_returns:
  "\<not> fails_next r \<Longrightarrow>
   calculateHash r =
     (Inr (EncodeToString (sha256 (unread r))),
      r\<lparr>offset := length (content r), faults := tl (faults r)\<rparr>)"
  by (simp add: calculateHash_def read_to_EOF_def)

lemma calculateHash_fatal:
  "fails_next r \<Longrightarrow> calculateHash r = (Inl (Exit 1), r\<lparr>faults := tl (faults r)\<rparr>)"
  by (simp add: calculateHash_def read_to_EOF_def)

text \<open>
  C8. The hasher is deterministic and its output is lowercase hexadecimal of a 256-bit
  digest: two readers whose reads do not fail and that hold the same unread bytes both
  return, with the same string; that string is the hexadecimal encoding of a digest of
  32 bytes (256 bits), has 64 characters, and every character is one of
  \<^verbatim>\<open>0123456789abcdef\<close>.
\<close>

theorem calculateHash_deterministic_hex64:
  assumes "\<not> fails_next r1" and "\<not> fails_next r2" and "unread r1 = unread r2"
  shows "\<exists>h. fst (calculateHash r1) = Inr h \<and> fst (calculateHash r2) = Inr h
           \<and> h = EncodeToString (sha256 (unread r1))
           \<and> length (sha256 (unread r1)) * 8 = 256
           \<and> length h = 64 \<and> set h \<subseteq> set ''0123456789abcdef''"
  using assms EncodeToString_digits [of "sha256 (unread r1)"]
  by (simp add: calculateHash_returns length_EncodeToString length_sha256 hextable_def)

theorem calculateHash_deterministic_hex64_witness:
  "\<exists>h. fst (calculateHash \<lparr>content = [0x68, 0x69], offset = 0, faults = []\<rparr>) = Inr h
      \<and> fst (calculateHash \<lparr>content = [0x00, 0x68, 0x69], offset = 1, faults = [False, True]\<rparr>) = Inr h
      \<and> length h = 64 \<and> set h \<subseteq> set ''0123456789abcdef''"
  using calculateHash_deterministic_hex64
    [of "\<lparr>content = [0x68, 0x69], offset = 0, faults = []\<rparr>"
        "\<lparr>content = [0x00, 0x68, 0x69], offset = 1, faults = [False, True]\<rparr>"]
  by (simp add: fails_next_def unread_def)

section \<open>The store\<close>

lemma addFile_cases:
  "addFile t fails fi = (Some ErrStorage, t) \<or> addFile t fails fi = (Some ErrConstraintUnique, t)
   \<or> (Hash fi \<notin> set (hashes t) \<and>
       addFile t fails fi =
        (None, t\<lparr>files := files t @
                   [\<lparr>row_id = seq t + 1, row_hash = Hash fi, row_name = Name fi,
                     row_file = File fi\<rparr>],
                 seq := seq t + 1\<rparr>))"
  by (simp add: addFile_def)

lemma addFile_duplicate:
  "Hash fi \<in> set (hashes t) \<Longrightarrow>
   addFile t fails fi = (Some (if fails then ErrStorage else ErrConstraintUnique), t)"
  by (simp add: addFile_def)

lemma addFile_distinct:
  "distinct (hashes t) \<Longrightarrow> distinct (hashes (snd (addFile t fails fi)))"
  using addFile_cases [of t fails fi] by (auto simp add: hashes_def)

lemma addFiles_distinct:
  "distinct (hashes t) \<Longrightarrow> distinct (hashes (addFiles t ops))"
proof (induction ops arbitrary: t)
  case Nil
  then show ?case by simp
next
  case (Cons op ops)
  obtain fails f where op: "op = (fails, f)" by (cases op)
  from Cons.prems have "distinct (hashes (snd (addFile t fails f)))"
    by (rule addFile_distinct)
  then show ?case using Cons.IH op by simp
qed

lemma distinct_filter_le_1:
  "distinct (map f xs) \<Longrightarrow> length (filter (\<lambda>x. f x = h) xs) \<le> 1"
proof (induction xs)
  case Nil
  then show ?case by simp
next
  case (Cons x xs)
  show ?case
  proof (cases "f x = h")
    case True
    with Cons.prems have "h \<notin> f ` set xs" by auto
    then have "filter (\<lambda>x. f x = h) xs = []" by (auto simp add: filter_empty_conv)
    with True show ?thesis by simp
  next
    case False
    with Cons show ?thesis by simp
  qed
qed

text \<open>
  C5. In every store reached from the table that \<^verbatim>\<open>initDB\<close> creates by calls of
  \<^verbatim>\<open>addFile\<close>, successful or not, each hash value \<open>h\<close> identifies at most one record;
  and an insert of a record whose hash is already present fails and leaves the store as
  it was.
\<close>

theorem hash_unique_in_reachable_store:
  assumes "initDB None False = Inr t0" and "t = addFiles t0 ops"
  shows "length (filter (\<lambda>r. row_hash r = h) (files t)) \<le> 1
       \<and> (Hash fi \<in> set (hashes t) \<longrightarrow>
            fst (addFile t fails fi) \<noteq> None \<and> snd (addFile t fails fi) = t)"
proof -
  from assms(1) have "hashes t0 = []" by (auto simp add: initDB_def hashes_def)
  then have "distinct (hashes t)" using addFiles_distinct [of t0 ops] assms(2) by simp
  then have "length (filter (\<lambda>r. row_hash r = h) (files t)) \<le> 1"
    unfolding hashes_def by (rule distinct_filter_le_1)
  then show ?thesis by (simp add: addFile_duplicate)
qed

theorem hash_unique_in_reachable_store_witness:
  "initDB None False = Inr fresh
   \<and> length (filter (\<lambda>r. row_hash r = ''ab'')
        (files (addFiles fresh
           [(False, \<lparr>ID = 0, Hash = ''ab'', Name = ''a.txt'', File = [1]\<rparr>),
            (False, \<lparr>ID = 0, Hash = ''ab'', Name = ''b.txt'', File = [1]\<rparr>)]))) \<le> 1
   \<and> snd (addFile (addFiles fresh
           [(False, \<lparr>ID = 0, Hash = ''ab'', Name = ''a.txt'', File = [1]\<rparr>),
            (False, \<lparr>ID = 0, Hash = ''ab'', Name = ''b.txt'', File = [1]\<rparr>)]) False
           \<lparr>ID = 0, Hash = ''ab'', Name = ''c.txt'', File = [1]\<rparr>)
     = \<lparr>files = [\<lparr>row_id = 1, row_hash = ''ab'', row_name = ''a.txt'', row_file = [1]\<rparr>], seq = 1\<rparr>"
  using hash_unique_in_reachable_store
    [where ?t0.0 = fresh
       and ops = "[(False, \<lparr>ID = 0, Hash = ''ab'', Name = ''a.txt'', File = [1]\<rparr>),
                   (False, \<lparr>ID = 0, Hash = ''ab'', Name = ''b.txt'', File = [1]\<rparr>)]"
       and h = "''ab''" and fails = False
       and fi = "\<lparr>ID = 0, Hash = ''ab'', Name = ''c.txt'', File = [1]\<rparr>", OF _ refl]
  by (simp add: initDB_def fresh_def addFile_def hashes_def max_rowid_def)

section \<open>The upload handler\<close>

lemma not_OK [simp]:
  "StatusBadRequest \<noteq> StatusOK" "StatusConflict \<noteq> StatusOK" "StatusInternalServerError \<noteq> StatusOK"
  by (simp_all add: StatusOK_def StatusBadRequest_def StatusConflict_def StatusInternalServerError_def)

lemma fails_next_simps [simp]:
  "fails_next (s\<lparr>offset := n\<rparr>) = fails_next s"
  "fails_next (s\<lparr>faults := fs\<rparr>) = (case fs of [] \<Rightarrow> False | b # _ \<Rightarrow> b)"
  by (simp_all add: fails_next_def)

lemma healthy_simps [simp]: "exists_fails healthy = False" "insert_fails healthy = False"
  by (simp_all add: healthy_def)

lemma upload_read_not_OK: "upload_read t flt c = Inl (Respond st body) \<Longrightarrow> st \<noteq> StatusOK"
  by (auto simp add: upload_read_def split: sum.splits prod.splits if_splits)

lemma upload_save_cases:
  "upload_save t flt fi =
     (Respond StatusInternalServerError (error_body ''Failed to save file to database''), t)
   \<or> (\<exists>body t' r. upload_save t flt fi = (Respond StatusOK body, t') \<and> files t' = files t @ [r])"
  using addFile_cases [of t "insert_fails flt" fi] by (auto simp add: upload_save_def)

text \<open>
  C6. Upload is all-or-nothing on the store: when the handler responds 200 the store has
  exactly one record more, appended to the records it had; on every other outcome (400,
  409, 500, or the process ending in the hashing pass) the store is the one it was.
\<close>

theorem upload_one_record_or_none:
  "(case upload t flt c of
      (Respond st body, t') \<Rightarrow>
        if st = StatusOK then (\<exists>r. files t' = files t @ [r]) else t' = t
    | (Fatal ex, t') \<Rightarrow> t' = t)"
proof (cases "upload_read t flt c")
  case (Inl out)
  then show ?thesis
    by (cases out) (auto simp add: upload_def dest: upload_read_not_OK)
next
  case (Inr fi)
  then show ?thesis
    using upload_save_cases [of t flt fi] by (auto simp add: upload_def)
qed

theorem upload_one_record_or_none_witness:
  "snd (upload fresh healthy (form_upload ''a.txt'' [1, 2] [False, False, True])) = fresh
   \<and> (\<exists>r. files (snd (upload fresh healthy (form_upload ''a.txt'' [1, 2] []))) = files fresh @ [r])"
proof -
  have 1: "fst (upload fresh healthy (form_upload ''a.txt'' [1, 2] [False, False, True])) =
        Respond StatusInternalServerError (error_body ''Failed to read file content'')"
    by (simp add: upload_def upload_read_def form_upload_def calculateHash_def read_to_EOF_def
        Seek_start_def fileExists_def unread_def fails_next_def fresh_def hashes_def)
  have 2: "fst (upload fresh healthy (form_upload ''a.txt'' [1, 2] [])) =
        Respond StatusOK (JObject [(''filename'', JString ''a.txt''),
                        (''hash'', JString (EncodeToString (sha256 [1, 2]))),
                        (''message'', JString ''File uploaded successfully'')])"
    by (simp add: upload_def upload_read_def form_upload_def calculateHash_def read_to_EOF_def
        Seek_start_def fileExists_def unread_def fails_next_def fresh_def hashes_def
        upload_save_def addFile_def max_rowid_def)
  show ?thesis
    using upload_one_record_or_none [of fresh healthy "form_upload ''a.txt'' [1, 2] [False, False, True]"]
      upload_one_record_or_none [of fresh healthy "form_upload ''a.txt'' [1, 2] []"] 1 2
    by (auto split: prod.splits outcome.splits)
qed

lemma upload_read_no_faults:
  assumes "True \<notin> set fs"
  shows "upload_read t healthy (form_upload n B fs) =
           (if EncodeToString (sha256 B) \<in> set (hashes t)
            then Inl (Respond StatusConflict (error_body ''File already exists''))
            else Inr \<lparr>ID = 0, Hash = EncodeToString (sha256 B), Name = n, File = B\<rparr>)"
proof -
  have "\<not> (case fs of [] \<Rightarrow> False | b # _ \<Rightarrow> b)"
    and "\<not> (case tl fs of [] \<Rightarrow> False | b # _ \<Rightarrow> b)"
    and "\<not> (case tl (tl fs) of [] \<Rightarrow> False | b # _ \<Rightarrow> b)"
    using assms by (cases fs; cases "tl fs"; cases "tl (tl fs)"; auto)+
  then show ?thesis
    by (simp add: upload_read_def form_upload_def calculateHash_def read_to_EOF_def
        Seek_start_def fileExists_def unread_def fails_next_def)
qed

text \<open>
  C1. Deduplication at the upload endpoint. Let \<open>B\<close> be any byte sequence and \<open>H\<close> the
  hexadecimal SHA-256 digest of \<open>B\<close>. On a store that holds no record with hash \<open>H\<close>
  (and has an id left), with no failure of the stream or of the storage engine, the
  upload of \<open>B\<close> responds 200 with the hash \<open>H\<close>; a second upload of the same bytes, under
  any file name, responds 409 and leaves the store as the first upload left it; that
  store holds exactly one record whose hash is \<open>H\<close>.
\<close>

theorem upload_twice_conflict:
  assumes "True \<notin> set fs1" and "True \<notin> set fs2"
    and "H = EncodeToString (sha256 B)"
    and "H \<notin> set (hashes t)" and "seq t \<noteq> max_rowid"
  shows "\<exists>t1. upload t healthy (form_upload n1 B fs1) =
           (Respond StatusOK
              (JObject [(''filename'', JString n1), (''hash'', JString H),
                        (''message'', JString ''File uploaded successfully'')]), t1)
       \<and> upload t1 healthy (form_upload n2 B fs2) =
           (Respond StatusConflict (error_body ''File already exists''), t1)
       \<and> length (filter (\<lambda>r. row_hash r = H) (files t1)) = 1"
proof -
  let ?r = "\<lparr>row_id = seq t + 1, row_hash = H, row_name = n1, row_file = B\<rparr>"
  let ?t1 = "t\<lparr>files := files t @ [?r], seq := seq t + 1\<rparr>"
  have first: "upload t healthy (form_upload n1 B fs1) =
           (Respond StatusOK
              (JObject [(''filename'', JString n1), (''hash'', JString H),
                        (''message'', JString ''File uploaded successfully'')]), ?t1)"
    using assms
    by (simp add: upload_def upload_read_no_faults upload_save_def addFile_def)
  have "H \<in> set (hashes ?t1)" by (simp add: hashes_def)
  then have second: "upload ?t1 healthy (form_upload n2 B fs2) =
           (Respond StatusConflict (error_body ''File already exists''), ?t1)"
    using assms(2,3) by (simp add: upload_def upload_read_no_faults)
  have "filter (\<lambda>r. row_hash r = H) (files t) = []"
    using assms(4) by (auto simp add: hashes_def filter_empty_conv)
  then have "length (filter (\<lambda>r. row_hash r = H) (files ?t1)) = 1" by simp
  with first second show ?thesis by blast
qed

theorem upload_twice_conflict_witness:
  "\<exists>t1. upload fresh healthy (form_upload ''a.txt'' (bytes_of ''hello'') []) =
           (Respond StatusOK
              (JObject [(''filename'', JString ''a.txt''),
                        (''hash'', JString (EncodeToString (sha256 (bytes_of ''hello'')))),
                        (''message'', JString ''File uploaded successfully'')]), t1)
       \<and> upload t1 healthy (form_upload ''b.txt'' (bytes_of ''hello'') [False, False]) =
           (Respond StatusConflict (error_body ''File already exists''), t1)
       \<and> length (filter (\<lambda>r. row_hash r = EncodeToString (sha256 (bytes_of ''hello''))) (files t1)) = 1"
  using upload_twice_conflict
    [where t = fresh and B = "bytes_of ''hello''" and ?fs1.0 = "[]" and ?fs2.0 = "[False, False]"
       and ?n1.0 = "''a.txt''" and ?n2.0 = "''b.txt''", OF _ _ refl]
  by (simp add: fresh_def hashes_def max_rowid_def)

text \<open>The handler writes the store through \<^verbatim>\<open>addFile\<close> alone.\<close>

lemma upload_save_snd: "snd (upload_save t flt fileInfo) = snd (addFile t (insert_fails flt) fileInfo)"
  by (simp add: upload_save_def split: prod.splits option.splits)

lemma upload_writes_by_addFile: "\<exists>ops. snd (upload t flt c) = addFiles t ops"
proof (cases "upload_read t flt c")
  case (Inl out)
  then have "snd (upload t flt c) = addFiles t []" by (simp add: upload_def)
  then show ?thesis ..
next
  case (Inr fi)
  then have "snd (upload t flt c) = addFiles t [(insert_fails flt, fi)]"
    by (simp add: upload_def upload_save_snd)
  then show ?thesis ..
qed

text \<open>
  C2, as the claim states it, fails: with the hash of the new record already in the
  store, \<^verbatim>\<open>addFile\<close> fails on the uniqueness constraint and the handler responds 500,
  not 409.
\<close>

theorem insert_duplicate_counterexample:
  "Hash \<lparr>ID = 0, Hash = ''2cf24dba5fb0a30e26e83b2ac5b9e29e1b161e5c1fa7425e73043362938b9824'',
         Name = ''b.txt'', File = bytes_of ''hello''\<rparr>
     \<in> set (hashes \<lparr>files = [\<lparr>row_id = 1,
            row_hash = ''2cf24dba5fb0a30e26e83b2ac5b9e29e1b161e5c1fa7425e73043362938b9824'',
            row_name = ''a.txt'', row_file = bytes_of ''hello''\<rparr>], seq = 1\<rparr>)
   \<and> fst (addFile \<lparr>files = [\<lparr>row_id = 1,
            row_hash = ''2cf24dba5fb0a30e26e83b2ac5b9e29e1b161e5c1fa7425e73043362938b9824'',
            row_name = ''a.txt'', row_file = bytes_of ''hello''\<rparr>], seq = 1\<rparr> False
        \<lparr>ID = 0, Hash = ''2cf24dba5fb0a30e26e83b2ac5b9e29e1b161e5c1fa7425e73043362938b9824'',
         Name = ''b.txt'', File = bytes_of ''hello''\<rparr>) = Some ErrConstraintUnique
   \<and> status (fst (upload_save \<lparr>files = [\<lparr>row_id = 1,
            row_hash = ''2cf24dba5fb0a30e26e83b2ac5b9e29e1b161e5c1fa7425e73043362938b9824'',
            row_name = ''a.txt'', row_file = bytes_of ''hello''\<rparr>], seq = 1\<rparr> healthy
        \<lparr>ID = 0, Hash = ''2cf24dba5fb0a30e26e83b2ac5b9e29e1b161e5c1fa7425e73043362938b9824'',
         Name = ''b.txt'', File = bytes_of ''hello''\<rparr>)) = Some StatusInternalServerError
   \<and> Some StatusInternalServerError \<noteq> Some StatusConflict"
  by (simp add: upload_save_def addFile_def hashes_def healthy_def
      StatusInternalServerError_def StatusConflict_def)

text \<open>
  C2, amended. When the insert is called with a hash already present in the store, the
  insert fails; and whenever the insert fails, for that or for any other reason, the
  handler responds 500 with the message \<^verbatim>\<open>Failed to save file to database\<close> and the
  store is unchanged: the handler does not tell a duplicate key from another failure.
\<close>

theorem upload_save_failure_is_500:
  assumes "Hash fileInfo \<in> set (hashes t) \<or> fst (addFile t (insert_fails flt) fileInfo) \<noteq> None"
  shows "fst (addFile t (insert_fails flt) fileInfo) \<noteq> None
       \<and> upload_save t flt fileInfo =
           (Respond StatusInternalServerError (error_body ''Failed to save file to database''), t)"
  using assms addFile_cases [of t "insert_fails flt" fileInfo]
  by (auto simp add: upload_save_def addFile_duplicate)

theorem upload_save_failure_is_500_witness:
  "upload_save \<lparr>files = [\<lparr>row_id = 1, row_hash = ''ab'', row_name = ''a.txt'', row_file = [1]\<rparr>], seq = 1\<rparr>
      healthy \<lparr>ID = 0, Hash = ''ab'', Name = ''b.txt'', File = [1]\<rparr> =
     (Respond StatusInternalServerError (error_body ''Failed to save file to database''),
      \<lparr>files = [\<lparr>row_id = 1, row_hash = ''ab'', row_name = ''a.txt'', row_file = [1]\<rparr>], seq = 1\<rparr>)"
  using upload_save_failure_is_500
    [where t = "\<lparr>files = [\<lparr>row_id = 1, row_hash = ''ab'', row_name = ''a.txt'', row_file = [1]\<rparr>], seq = 1\<rparr>"
       and flt = healthy and fileInfo = "\<lparr>ID = 0, Hash = ''ab'', Name = ''b.txt'', File = [1]\<rparr>"]
  by (simp add: hashes_def)

text \<open>
  C3, as the claim states it, fails: when the read of the hashing pass fails, the handler
  writes no response at all, since \<^verbatim>\<open>log.Fatal\<close> in \<^verbatim>\<open>calculateHash\<close> ends the process.
\<close>

theorem hash_failure_counterexample:
  "fst (upload fresh healthy (form_upload ''a.txt'' (bytes_of ''hello'') [True])) = Fatal (Exit 1)
   \<and> status (fst (upload fresh healthy (form_upload ''a.txt'' (bytes_of ''hello'') [True])))
       \<noteq> Some StatusInternalServerError"
  by (simp add: upload_def upload_read_def form_upload_def calculateHash_def read_to_EOF_def
      fails_next_def)

text \<open>
  C3, amended. If reading the upload stream during hashing fails, the process ends with
  exit status 1 before any response and before any access to the store: the handler does
  not reach the existence check or the insert, and the store is unchanged.
\<close>

theorem upload_hash_failure_is_fatal:
  assumes "FormFile c = Inr fh" and "Open fh = Inr s" and "fails_next s"
  shows "upload_read t flt c = Inl (Fatal (Exit 1)) \<and> upload t flt c = (Fatal (Exit 1), t)"
  using assms by (simp add: upload_def upload_read_def calculateHash_fatal)

theorem upload_hash_failure_is_fatal_witness:
  "upload fresh healthy (form_upload ''a.txt'' [1, 2, 3] [True]) = (Fatal (Exit 1), fresh)"
  using upload_hash_failure_is_fatal
    [where c = "form_upload ''a.txt'' [1, 2, 3] [True]"
       and fh = "\<lparr>Filename = ''a.txt'', Open = Inr \<lparr>content = [1, 2, 3], offset = 0, faults = [True]\<rparr>\<rparr>"
       and s = "\<lparr>content = [1, 2, 3], offset = 0, faults = [True]\<rparr>"
       and t = fresh and flt = healthy]
  by (simp add: form_upload_def fails_next_def)

text \<open>
  The two digests of the scenarios of the specification, computed: SHA-256 of
  \<^verbatim>\<open>hello\<close> and of the empty input.
\<close>

lemma sha256_hello:
  "EncodeToString (sha256 (bytes_of ''hello'')) =
     ''2cf24dba5fb0a30e26e83b2ac5b9e29e1b161e5c1fa7425e73043362938b9824''"
  by code_simp

lemma sha256_empty:
  "EncodeToString (sha256 []) =
     ''e3b0c44298fc1c149afbf4c8996fb92427ae41e4649b934ca495991b7852b855''"
  by code_simp

lemma upload_seek_fails_symbolic:
  "upload fresh healthy (form_upload n B [False, True]) =
     (Respond StatusOK
        (JObject [(''filename'', JString n),
                  (''hash'', JString (EncodeToString (sha256 B))),
                  (''message'', JString ''File uploaded successfully'')]),
      \<lparr>files = [\<lparr>row_id = 1, row_hash = EncodeToString (sha256 B), row_name = n, row_file = []\<rparr>],
       seq = 1\<rparr>)"
  by (simp add: upload_def upload_read_def form_upload_def calculateHash_def read_to_EOF_def
      Seek_start_def fileExists_def unread_def fresh_def hashes_def upload_save_def addFile_def
      max_rowid_def fails_next_def)

text \<open>
  C4 when the reset of the stream fails (the script \<open>[False, True]\<close>: the hashing pass
  reads, the seek fails): the result of \<^verbatim>\<open>Seek\<close> is not looked at, the second pass
  reads from the end of the stream, and the upload of \<^verbatim>\<open>hello\<close> succeeds with a record
  whose hash is the digest of \<^verbatim>\<open>hello\<close> and whose content is empty; the digest of
  that content is another string.
\<close>

theorem upload_seek_failure_breaks_hash_of_content:
  "upload fresh healthy (form_upload ''a.txt'' (bytes_of ''hello'') [False, True]) =
     (Respond StatusOK
        (JObject [(''filename'', JString ''a.txt''),
                  (''hash'', JString ''2cf24dba5fb0a30e26e83b2ac5b9e29e1b161e5c1fa7425e73043362938b9824''),
                  (''message'', JString ''File uploaded successfully'')]),
      \<lparr>files = [\<lparr>row_id = 1,
                 row_hash = ''2cf24dba5fb0a30e26e83b2ac5b9e29e1b161e5c1fa7425e73043362938b9824'',
                 row_name = ''a.txt'', row_file = []\<rparr>],
       seq = 1\<rparr>)
   \<and> EncodeToString (sha256 []) \<noteq>
       ''2cf24dba5fb0a30e26e83b2ac5b9e29e1b161e5c1fa7425e73043362938b9824''"
  by (simp add: upload_seek_fails_symbolic sha256_hello sha256_empty)

text \<open>
  When the seek does not fail, the struct handed to the insert has the hash of its own
  content, the bytes of the stream.
\<close>

lemma upload_read_hash_of_content:
  assumes "upload_read t flt c = Inr fileInfo"
    and "FormFile c = Inr fh" and "Open fh = Inr s" and "offset s = 0"
    and "\<not> (case tl (faults s) of [] \<Rightarrow> False | b # _ \<Rightarrow> b)"
  shows "Hash fileInfo = EncodeToString (sha256 (File fileInfo)) \<and> File fileInfo = content s"
  using assms
  by (auto simp add: upload_read_def calculateHash_def read_to_EOF_def Seek_start_def unread_def
      split: if_splits sum.splits)

section \<open>The listing\<close>

lemma elems_append_slice: "elems (append_slice s x) = elems s @ [x]"
  by (cases s) (simp_all add: elems_def append_slice_def)

lemma rows_loop_prefix:
  "rows_loop rs flts acc = Inr out \<Longrightarrow> \<exists>n. elems out = elems acc @ map scanned (take n rs)"
proof (induction rs arbitrary: flts acc)
  case Nil
  then show ?case by simp
next
  case (Cons r rs)
  let ?f = "case flts of [] \<Rightarrow> NoFault | f # _ \<Rightarrow> f"
  show ?case
  proof (cases ?f)
    case NoFault
    with Cons.prems have "rows_loop rs (tl flts) (append_slice acc (scanned r)) = Inr out"
      by simp
    from Cons.IH [OF this] obtain n
      where "elems out = elems (append_slice acc (scanned r)) @ map scanned (take n rs)" ..
    then have "elems out = elems acc @ map scanned (take (Suc n) (r # rs))"
      by (simp add: elems_append_slice)
    then show ?thesis ..
  next
    case NextFails
    with Cons.prems have "out = acc" by simp
    then have "elems out = elems acc @ map scanned (take 0 (r # rs))" by simp
    then show ?thesis ..
  next
    case ScanFails
    with Cons.prems show ?thesis by simp
  qed
qed

lemma rows_loop_no_faults:
  "\<exists>out. rows_loop rs [] acc = Inr out \<and> elems out = elems acc @ map scanned rs"
proof (induction rs arbitrary: acc)
  case Nil
  then show ?case by simp
next
  case (Cons r rs)
  from Cons.IH [of "append_slice acc (scanned r)"] show ?case
    by (simp add: elems_append_slice)
qed

text \<open>
  C7. Whatever the store and whatever fails, the files that \<^verbatim>\<open>getAllFiles\<close> returns are
  records of the store reduced to id, hash and name, in the order of the table, with the
  field \<^verbatim>\<open>File\<close> empty: the content bytes are never in the result. When nothing fails,
  the result has every record of the store, and \<^verbatim>\<open>GET /files\<close> responds 200 with it.
\<close>

theorem getAllFiles_metadata_only:
  "(getAllFiles t lf = Inr fs \<longrightarrow>
      (\<exists>n. elems fs =
         map (\<lambda>r. \<lparr>ID = row_id r, Hash = row_hash r, Name = row_name r, File = []\<rparr>)
           (take n (files t))))
   \<and> (\<exists>all. getAllFiles t no_list_faults = Inr all
        \<and> elems all =
            map (\<lambda>r. \<lparr>ID = row_id r, Hash = row_hash r, Name = row_name r, File = []\<rparr>) (files t)
        \<and> list_files t no_list_faults =
            Respond StatusOK (marshal_Files all))"
proof -
  have sc: "scanned = (\<lambda>r. \<lparr>ID = row_id r, Hash = row_hash r, Name = row_name r, File = []\<rparr>)"
    by (rule ext) (simp add: scanned_def)
  have "getAllFiles t lf = Inr fs \<longrightarrow> (\<exists>n. elems fs = map scanned (take n (files t)))"
  proof
    assume "getAllFiles t lf = Inr fs"
    then have "rows_loop (files t) (row_faults lf) None = Inr fs"
      by (simp add: getAllFiles_def split: if_splits)
    from rows_loop_prefix [OF this] show "\<exists>n. elems fs = map scanned (take n (files t))"
      by (simp add: elems_def)
  qed
  moreover have "\<exists>all. getAllFiles t no_list_faults = Inr all
        \<and> elems all = map scanned (files t)
        \<and> list_files t no_list_faults = Respond StatusOK (marshal_Files all)"
    using rows_loop_no_faults [of "files t" None]
    by (auto simp add: getAllFiles_def no_list_faults_def list_files_def elems_def)
  ultimately show ?thesis unfolding sc by blast
qed

theorem getAllFiles_metadata_only_witness:
  "elems (Some [\<lparr>ID = 1, Hash = ''ab'', Name = ''a.txt'', File = []\<rparr>]) =
      map (\<lambda>r. \<lparr>ID = row_id r, Hash = row_hash r, Name = row_name r, File = []\<rparr>)
        [\<lparr>row_id = 1, row_hash = ''ab'', row_name = ''a.txt'', row_file = [7, 8, 9]\<rparr>]
   \<and> getAllFiles
        \<lparr>files = [\<lparr>row_id = 1, row_hash = ''ab'', row_name = ''a.txt'', row_file = [7, 8, 9]\<rparr>], seq = 1\<rparr>
        no_list_faults = Inr (Some [\<lparr>ID = 1, Hash = ''ab'', Name = ''a.txt'', File = []\<rparr>])"
  using getAllFiles_metadata_only
    [where t = "\<lparr>files = [\<lparr>row_id = 1, row_hash = ''ab'', row_name = ''a.txt'', row_file = [7, 8, 9]\<rparr>], seq = 1\<rparr>"
       and lf = no_list_faults and fs = "Some [\<lparr>ID = 1, Hash = ''ab'', Name = ''a.txt'', File = []\<rparr>]"]
  by (simp add: getAllFiles_def no_list_faults_def scanned_def append_slice_def elems_def)

text \<open>
  C9 at the empty store: \<^verbatim>\<open>getAllFiles\<close> returns the nil slice, which \<^verbatim>\<open>c.JSON\<close>
  writes as \<^verbatim>\<open>null\<close>; the response is 200 and its body is not a JSON array.
\<close>

theorem list_files_empty_store_null:
  "initDB None False = Inr fresh
   \<and> getAllFiles fresh no_list_faults = Inr None
   \<and> list_files fresh no_list_faults = Respond StatusOK JNull
   \<and> \<not> is_file_array JNull"
  by (simp add: initDB_def fresh_def getAllFiles_def no_list_faults_def list_files_def
      marshal_Files_def)

text \<open>On a store with at least one record the body is an array of such objects.\<close>

lemma list_files_nonempty_array:
  assumes "files t \<noteq> []"
  shows "\<exists>body. list_files t no_list_faults = Respond StatusOK body \<and> is_file_array body"
proof -
  obtain r rs where t: "files t = r # rs" using assms by (cases "files t") auto
  obtain out where out: "rows_loop rs [] (Some [scanned r]) = Inr out"
    and el: "elems out = elems (Some [scanned r]) @ map scanned rs"
    using rows_loop_no_faults [of rs "Some [scanned r]"] by blast
  from el obtain fs where "out = Some fs" by (cases out) (simp_all add: elems_def)
  moreover have "list_all is_file_object (map marshal_File fs)" for fs
    by (induction fs) (simp_all add: marshal_File_def)
  ultimately show ?thesis using t out
    by (simp add: list_files_def getAllFiles_def no_list_faults_def append_slice_def
        marshal_Files_def)
qed

text \<open>
  When \<^verbatim>\<open>rows.Next()\<close> never fails, a result without error has every record: a
  failed query or a failed \<^verbatim>\<open>rows.Scan\<close> gives the error and no data.
\<close>

lemma rows_loop_complete:
  "rows_loop rs flts acc = Inr out \<Longrightarrow> NextFails \<notin> set flts \<Longrightarrow>
   elems out = elems acc @ map scanned rs"
proof (induction rs arbitrary: flts acc)
  case Nil
  then show ?case by simp
next
  case (Cons r rs)
  have tl: "NextFails \<notin> set (tl flts)"
    using Cons.prems(2) by (cases flts) auto
  have "(case flts of [] \<Rightarrow> NoFault | f # _ \<Rightarrow> f) \<noteq> NextFails"
    using Cons.prems(2) by (cases flts) auto
  with Cons.prems(1)
  have "rows_loop rs (tl flts) (append_slice acc (scanned r)) = Inr out"
    by (cases "case flts of [] \<Rightarrow> NoFault | f # _ \<Rightarrow> f") simp_all
  from Cons.IH [OF this tl] show ?case by (simp add: elems_append_slice)
qed

lemma getAllFiles_complete_unless_Next_fails:
  "getAllFiles t lf = Inr fs \<Longrightarrow> NextFails \<notin> set (row_faults lf) \<Longrightarrow>
   elems fs = map scanned (files t)"
  using rows_loop_complete [of "files t" "row_faults lf" None fs]
  by (simp add: getAllFiles_def elems_def split: if_splits)

text \<open>
  C10 on a store of two records, when \<^verbatim>\<open>rows.Next()\<close> fails at the second row: the
  loop ends as it does after the last row, \<^verbatim>\<open>rows.Err()\<close> is never read, and
  \<^verbatim>\<open>getAllFiles\<close> returns the first record alone with no error; \<^verbatim>\<open>GET /files\<close>
  responds 200 with that one record.
\<close>

theorem getAllFiles_truncated_without_error:
  "getAllFiles
     \<lparr>files = [\<lparr>row_id = 1, row_hash = ''ab'', row_name = ''a.txt'', row_file = [1]\<rparr>,
               \<lparr>row_id = 2, row_hash = ''cd'', row_name = ''b.txt'', row_file = [2]\<rparr>], seq = 2\<rparr>
     \<lparr>query_fails = False, row_faults = [NoFault, NextFails]\<rparr>
     = Inr (Some [\<lparr>ID = 1, Hash = ''ab'', Name = ''a.txt'', File = []\<rparr>])
   \<and> list_files
     \<lparr>files = [\<lparr>row_id = 1, row_hash = ''ab'', row_name = ''a.txt'', row_file = [1]\<rparr>,
               \<lparr>row_id = 2, row_hash = ''cd'', row_name = ''b.txt'', row_file = [2]\<rparr>], seq = 2\<rparr>
     \<lparr>query_fails = False, row_faults = [NoFault, NextFails]\<rparr>
     = Respond StatusOK
         (JArray [JObject [(''id'', JNumber 1), (''hash'', JString ''ab''), (''name'', JString ''a.txt'')]])"
  by (simp add: getAllFiles_def list_files_def scanned_def append_slice_def marshal_Files_def
      marshal_File_def)

end
